theory Spec2Isabelle
  imports Complex_Main
begin

section \<open>SEMOpx price client: the index walker and the result merger\<close>

text \<open>
  A shallow embedding of \<^verbatim>\<open>custom_components/semopx/aio_price.py\<close>, class
  \<^verbatim>\<open>AioPrices\<close>. Exceptions are values of \<open>error\<close>; a function that can raise returns
  \<open>error + 'a\<close>. The network is an input: the index endpoint is the list of its answers
  (the answer to the request for page \<open>n\<close> is the \<open>n\<close>-th element), the detail endpoint a
  function of the resource name. The libraries \<^verbatim>\<open>dateutil\<close> and \<^verbatim>\<open>pytz\<close> are parameters
  (record \<open>libs\<close>). JSON numbers are rationals and \<^verbatim>\<open>/\<close> is their division: the rounding
  of binary floating point is not modelled.
\<close>

subsection \<open>Errors, Python indexing and substring test\<close>

datatype error =
    ClientError
  | KeyError string
  | TypeError
  | IndexError
  | ValueError string
  | ParserError
  | UnboundLocalError

text \<open>How a run ends: a value, an exception, or still waiting for an answer of the network.\<close>

datatype 'a outcome = Returned 'a | Raised error | Awaiting

text \<open>\<^verbatim>\<open>xs[i]\<close>: from the front for \<open>0 \<le> i\<close>, from the back for \<open>i < 0\<close>, \<^verbatim>\<open>IndexError\<close> outside.\<close>

definition py_index :: "'a list \<Rightarrow> int \<Rightarrow> error + 'a" where
  "py_index xs i =
     (if 0 \<le> i \<and> i < int (length xs) then Inr (xs ! nat i)
      else if i < 0 \<and> - int (length xs) \<le> i then Inr (xs ! nat (int (length xs) + i))
      else Inl IndexError)"

fun startswith :: "string \<Rightarrow> string \<Rightarrow> bool" where
  "startswith t [] = True"
| "startswith [] (c # s) = False"
| "startswith (d # t) (c # s) = (d = c \<and> startswith t s)"

text \<open>\<^verbatim>\<open>s in t\<close> on strings: \<open>s\<close> occurs in \<open>t\<close> as a contiguous block.\<close>

fun str_in :: "string \<Rightarrow> string \<Rightarrow> bool" where
  "str_in s [] = (s = [])"
| "str_in s (d # t) = (startswith (d # t) s \<or> str_in s t)"

subsection \<open>The client object and the libraries\<close>

text \<open>
  The fields of \<^verbatim>\<open>self\<close> that the walker and the merger read. \<^verbatim>\<open>self.timezone\<close> is the
  constructor's \<^verbatim>\<open>tz\<close>.
\<close>

record AioPrices =
  currency :: string
  market_area :: string
  timezone :: string

text \<open>
  \<^verbatim>\<open>parse_dt\<close> is \<^verbatim>\<open>dateutil.parser.parse\<close> (\<open>None\<close>: it raises its \<^verbatim>\<open>ParserError\<close>),
  \<^verbatim>\<open>all_timezones\<close> the list of \<^verbatim>\<open>pytz\<close>, \<open>timestamp\<close> is \<^verbatim>\<open>int(dt.timestamp())\<close>,
  \<open>astimezone\<close> is \<^verbatim>\<open>dt.astimezone(timezone(name))\<close> and \<open>strftime\<close> is
  \<^verbatim>\<open>dt.strftime('%Y/%m/%d %H:%M:%S')\<close>.
\<close>

record ('dt, 'ldt) libs =
  parse_dt :: "string \<Rightarrow> 'dt option"
  all_timezones :: "string list"
  timestamp :: "'dt \<Rightarrow> int"
  astimezone :: "'dt \<Rightarrow> string \<Rightarrow> 'ldt"
  strftime :: "'ldt \<Rightarrow> string"

subsection \<open>The index walker\<close>

record item_rec =
  Date :: string
  ResourceName :: string

text \<open>
  The JSON body of an index page: \<open>items\<close> is \<open>None\<close> when the key \<^verbatim>\<open>'items'\<close> is
  missing, \<open>totalPages\<close> is \<open>None\<close> when \<^verbatim>\<open>['pagination']['totalPages']\<close> is.
\<close>

record index_doc =
  items :: "item_rec list option"
  totalPages :: "int option"

text \<open>
  What \<^verbatim>\<open>_async_fetch\<close> gives: \<open>Inl e\<close> when the transport raises, \<open>Inr None\<close> on status
  204 (and on an empty body), \<open>Inr (Some doc)\<close> otherwise.
\<close>

type_synonym 'doc response = "error + 'doc option"

record report =
  date :: string
  resources :: "string list"

text \<open>
  \<^verbatim>\<open>report_dict\<close> in insertion order, the order \<^verbatim>\<open>.items()\<close> iterates in. The local
  variable \<^verbatim>\<open>report\<close> is bound to an object that is also a value of the dictionary: it is
  modelled by the key of that value (\<open>None\<close> while the variable is unbound).
\<close>

type_synonym report_dict = "(string \<times> report) list"

type_synonym walk_state = "report_dict \<times> string option"

text \<open>\<^verbatim>\<open>report['resources'].append(r)\<close> where \<^verbatim>\<open>report\<close> is the value stored under \<open>k\<close>.\<close>

fun append_resource :: "string \<Rightarrow> string \<Rightarrow> report_dict \<Rightarrow> report_dict" where
  "append_resource k r [] = []"
| "append_resource k r ((k', rep) # rest) =
     (if k' = k then (k', rep\<lparr>resources := resources rep @ [r]\<rparr>) # rest
      else (k', rep) # append_resource k r rest)"

text \<open>The body of the loop over \<^verbatim>\<open>semopx_resp_dict['items']\<close>, lines 66 to 70.\<close>

fun add_item :: "item_rec \<Rightarrow> walk_state \<Rightarrow> error + walk_state" where
  "add_item item (report_dict, report) =
     (let key_date = take 10 (Date item);
          st1 = (if map_of report_dict key_date = None
                 then (report_dict @ [(key_date, \<lparr>date = key_date, resources = []\<rparr>)],
                       Some key_date)
                 else (report_dict, report))
      in (case snd st1 of
            None \<Rightarrow> Inl UnboundLocalError
          | Some k \<Rightarrow> Inr (append_resource k (ResourceName item) (fst st1), snd st1)))"

fun add_items :: "item_rec list \<Rightarrow> walk_state \<Rightarrow> error + walk_state" where
  "add_items [] st = Inr st"
| "add_items (item # rest) st =
     (case add_item item st of Inl e \<Rightarrow> Inl e | Inr st' \<Rightarrow> add_items rest st')"

text \<open>
  The \<^verbatim>\<open>while True\<close> loop of \<^verbatim>\<open>_fetch_semopx_json\<close>. \<open>page\<close> is the counter before the
  increment; the result lists the page numbers requested, in order, and how the loop
  ended. With no answer left the request for the next page is issued and the loop waits.
\<close>

fun walk_loop ::
  "int \<Rightarrow> index_doc response list \<Rightarrow> int \<Rightarrow> walk_state \<Rightarrow> int list \<times> report_dict outcome"
where
  "walk_loop days [] page st = ([page + 1], Awaiting)"
| "walk_loop days (resp # rest) page st =
     (let page' = page + 1 in
      case resp of
        Inl e \<Rightarrow> ([page'], Raised e)
      | Inr None \<Rightarrow> ([page'], Raised TypeError)
      | Inr (Some doc) \<Rightarrow>
          (case items doc of
             None \<Rightarrow> ([page'], Raised (KeyError ''items''))
           | Some its \<Rightarrow>
               (case add_items its st of
                  Inl e \<Rightarrow> ([page'], Raised e)
                | Inr st' \<Rightarrow>
                    (case totalPages doc of
                       None \<Rightarrow> ([page'], Raised (KeyError ''pagination''))
                     | Some total_pages \<Rightarrow>
                         if page' \<ge> total_pages \<or> int (length (fst st')) > days
                         then ([page'], Returned (fst st'))
                         else (case walk_loop days rest page' st' of
                                 (reqs, out) \<Rightarrow> (page' # reqs, out))))))"

definition fetch_semopx_json ::
  "int \<Rightarrow> index_doc response list \<Rightarrow> int list \<times> report_dict outcome" where
  "fetch_semopx_json days resps = walk_loop days resps 0 ([], None)"

subsection \<open>The result merger\<close>

text \<open>
  Element 0 of a row is indexed again with \<^verbatim>\<open>[1]\<close>: it is a string or a list of strings.
\<close>

datatype cell = Str string | Lst "string list"

text \<open>A row (\<^verbatim>\<open>data_set_list\<close>): its elements 0, 2 and 3.\<close>

record data_set =
  el0 :: cell
  el2 :: "string list"
  el3 :: "rat list"

text \<open>
  The JSON body of a detail document: the empty dictionary (falsy), a dictionary without
  the key \<^verbatim>\<open>'rows'\<close>, or one with it.
\<close>

datatype detail_doc = EmptyDoc | DocWithoutRows | DocRows "data_set list"

datatype val = VInt int | VStr string | VNum rat

type_synonym data_rec = "string \<rightharpoonup> val"

type_synonym rec_dict = "int \<rightharpoonup> data_rec"

record result =
  areas :: rec_dict

definition determine_context_prefix :: "string \<Rightarrow> string option" where
  "determine_context_prefix resource_name =
     (if str_in ''SEM-DA'' resource_name then Some ''da_''
      else if str_in ''SEM-IDA1'' resource_name then Some ''ida1_''
      else if str_in ''SEM-IDA2'' resource_name then Some ''ida2_''
      else if str_in ''SEM-IDA3'' resource_name then Some ''ida3_''
      else None)"

definition parse_semopx_time ::
  "AioPrices \<Rightarrow> ('dt, 'ldt) libs \<Rightarrow> string \<Rightarrow> error + (int \<times> 'ldt)" where
  "parse_semopx_time self lib datetime_str =
     (case parse_dt lib datetime_str of
        None \<Rightarrow> Inl ParserError
      | Some utc_dt \<Rightarrow>
          if timezone self \<notin> set (all_timezones lib)
          then Inl (ValueError (''Invalid timezone: '' @ timezone self))
          else Inr (timestamp lib utc_dt, astimezone lib utc_dt (timezone self)))"

text \<open>The list comprehension of line 98: the first element that raises ends it.\<close>

fun parse_all ::
  "AioPrices \<Rightarrow> ('dt, 'ldt) libs \<Rightarrow> string list \<Rightarrow> error + (int \<times> 'ldt) list" where
  "parse_all self lib [] = Inr []"
| "parse_all self lib (s # ss) =
     (case parse_semopx_time self lib s of
        Inl e \<Rightarrow> Inl e
      | Inr k \<Rightarrow> (case parse_all self lib ss of Inl e \<Rightarrow> Inl e | Inr ks \<Rightarrow> Inr (k # ks)))"

text \<open>
  The loop of \<^verbatim>\<open>_merge_prices\<close> over \<^verbatim>\<open>data_set_list[3]\<close>; \<open>i\<close> is the counter before the
  increment.
\<close>

fun merge_loop ::
  "AioPrices \<Rightarrow> ('dt, 'ldt) libs \<Rightarrow> (int \<times> 'ldt) list \<Rightarrow> string \<Rightarrow> rat list \<Rightarrow> int
   \<Rightarrow> rec_dict \<Rightarrow> error + rec_dict" where
  "merge_loop self lib key_list context_prefix [] i rec_dict = Inr rec_dict"
| "merge_loop self lib key_list context_prefix (price # rest) i rec_dict =
     (let i' = i + 1 in
      case py_index key_list i' of
        Inl e \<Rightarrow> Inl e
      | Inr (ts, local_dt) \<Rightarrow>
          let data_rec =
                (case rec_dict ts of
                   None \<Rightarrow>
                     [''ts'' \<mapsto> VInt ts,
                      ''datetime'' \<mapsto> VStr (strftime lib local_dt),
                      ''market_area'' \<mapsto> VStr (market_area self),
                      ''currency'' \<mapsto> VStr (currency self)]
                 | Some r \<Rightarrow> r)
          in merge_loop self lib key_list context_prefix rest i'
               (rec_dict(ts \<mapsto> data_rec(context_prefix @ ''kwh_rate'' \<mapsto> VNum (price / 1000)))))"

definition merge_prices ::
  "AioPrices \<Rightarrow> ('dt, 'ldt) libs \<Rightarrow> rec_dict \<Rightarrow> (int \<times> 'ldt) list \<Rightarrow> data_set \<Rightarrow> string
   \<Rightarrow> error + rec_dict" where
  "merge_prices self lib rec_dict key_list data_set_list context_prefix =
     merge_loop self lib key_list context_prefix (el3 data_set_list) (- 1) rec_dict"

definition finalize_rec :: "data_rec \<Rightarrow> data_rec" where
  "finalize_rec r =
     (case r ''ida3_kwh_rate'' of
        Some v \<Rightarrow> r(''final_kwh_rate'' \<mapsto> v)
      | None \<Rightarrow>
     (case r ''ida2_kwh_rate'' of
        Some v \<Rightarrow> r(''final_kwh_rate'' \<mapsto> v)
      | None \<Rightarrow>
     (case r ''ida1_kwh_rate'' of
        Some v \<Rightarrow> r(''final_kwh_rate'' \<mapsto> v)
      | None \<Rightarrow>
     (case r ''da_kwh_rate'' of
        Some v \<Rightarrow> r(''final_kwh_rate'' \<mapsto> v)
      | None \<Rightarrow> r))))"

definition finalize_records :: "rec_dict \<Rightarrow> rec_dict" where
  "finalize_records rec_dict = (\<lambda>ts. map_option finalize_rec (rec_dict ts))"

text \<open>\<^verbatim>\<open>data_set_list[0][1]\<close>: the second character of a string, the second element of a list.\<close>

definition area_of :: "data_set \<Rightarrow> error + string" where
  "area_of data_set_list =
     (case el0 data_set_list of
        Str s \<Rightarrow> (case py_index s 1 of Inl e \<Rightarrow> Inl e | Inr c \<Rightarrow> Inr [c])
      | Lst xs \<Rightarrow> py_index xs 1)"

text \<open>The body of the loop over the rows, lines 95 to 99.\<close>

definition merge_row ::
  "AioPrices \<Rightarrow> ('dt, 'ldt) libs \<Rightarrow> string \<Rightarrow> rec_dict \<Rightarrow> data_set \<Rightarrow> error + rec_dict" where
  "merge_row self lib context_prefix rec_dict data_set_list =
     (case area_of data_set_list of
        Inl e \<Rightarrow> Inl e
      | Inr area \<Rightarrow>
          if \<not> str_in (market_area self) area then Inr rec_dict
          else (case parse_all self lib (el2 data_set_list) of
                  Inl e \<Rightarrow> Inl e
                | Inr key_list \<Rightarrow>
                    merge_prices self lib rec_dict key_list data_set_list context_prefix))"

fun merge_rows ::
  "AioPrices \<Rightarrow> ('dt, 'ldt) libs \<Rightarrow> string \<Rightarrow> data_set list \<Rightarrow> rec_dict \<Rightarrow> error + rec_dict"
where
  "merge_rows self lib context_prefix [] rec_dict = Inr rec_dict"
| "merge_rows self lib context_prefix (row # rest) rec_dict =
     (case merge_row self lib context_prefix rec_dict row of
        Inl e \<Rightarrow> Inl e
      | Inr rec_dict' \<Rightarrow> merge_rows self lib context_prefix rest rec_dict')"

text \<open>\<^verbatim>\<open>semopx_resp_dict.get('rows', [])\<close>.\<close>

fun rows_of :: "detail_doc \<Rightarrow> data_set list" where
  "rows_of (DocRows rows) = rows"
| "rows_of _ = []"

text \<open>The body of the loop over the resources of a report, lines 83 to 99.\<close>

definition merge_resource ::
  "AioPrices \<Rightarrow> ('dt, 'ldt) libs \<Rightarrow> (string \<Rightarrow> detail_doc response) \<Rightarrow> rec_dict \<Rightarrow> string
   \<Rightarrow> error + rec_dict" where
  "merge_resource self lib api rec_dict resource_name =
     (case api resource_name of
        Inl e \<Rightarrow> Inl e
      | Inr None \<Rightarrow> Inr rec_dict
      | Inr (Some EmptyDoc) \<Rightarrow> Inr rec_dict
      | Inr (Some semopx_resp_dict) \<Rightarrow>
          (case determine_context_prefix resource_name of
             None \<Rightarrow> Inr rec_dict
           | Some context_prefix \<Rightarrow>
               merge_rows self lib context_prefix (rows_of semopx_resp_dict) rec_dict))"

fun merge_resources ::
  "AioPrices \<Rightarrow> ('dt, 'ldt) libs \<Rightarrow> (string \<Rightarrow> detail_doc response) \<Rightarrow> string list
   \<Rightarrow> rec_dict \<Rightarrow> error + rec_dict" where
  "merge_resources self lib api [] rec_dict = Inr rec_dict"
| "merge_resources self lib api (resource_name # rest) rec_dict =
     (case merge_resource self lib api rec_dict resource_name of
        Inl e \<Rightarrow> Inl e
      | Inr rec_dict' \<Rightarrow> merge_resources self lib api rest rec_dict')"

fun merge_reports ::
  "AioPrices \<Rightarrow> ('dt, 'ldt) libs \<Rightarrow> (string \<Rightarrow> detail_doc response) \<Rightarrow> report_dict
   \<Rightarrow> rec_dict \<Rightarrow> error + rec_dict" where
  "merge_reports self lib api [] rec_dict = Inr rec_dict"
| "merge_reports self lib api ((key, report) # rest) rec_dict =
     (case merge_resources self lib api (resources report) rec_dict of
        Inl e \<Rightarrow> Inl e
      | Inr rec_dict' \<Rightarrow> merge_reports self lib api rest rec_dict')"

text \<open>
  \<^verbatim>\<open>_retrieve_market_results\<close>. Its last line returns \<^verbatim>\<open>{"areas": rec_dict}\<close> for a
  dictionary with a record and \<^verbatim>\<open>{"areas": {}}\<close> for the empty one: the record dictionary
  under \<^verbatim>\<open>"areas"\<close> either way.
\<close>

definition retrieve_market_results ::
  "AioPrices \<Rightarrow> ('dt, 'ldt) libs \<Rightarrow> (string \<Rightarrow> detail_doc response) \<Rightarrow> report_dict
   \<Rightarrow> error + result" where
  "retrieve_market_results self lib api report_dict =
     (case merge_reports self lib api report_dict Map.empty of
        Inl e \<Rightarrow> Inl e
      | Inr rec_dict \<Rightarrow> Inr \<lparr>areas = finalize_records rec_dict\<rparr>)"

subsection \<open>Fetch and its retry decorator\<close>

text \<open>
  One run of the body of \<^verbatim>\<open>fetch\<close>, against the answers of the two endpoints during that
  run.
\<close>

definition fetch_body ::
  "AioPrices \<Rightarrow> ('dt, 'ldt) libs \<Rightarrow> index_doc response list \<times> (string \<Rightarrow> detail_doc response)
   \<Rightarrow> result outcome" where
  "fetch_body self lib net =
     (case snd (fetch_semopx_json 5 (fst net)) of
        Awaiting \<Rightarrow> Awaiting
      | Raised e \<Rightarrow> Raised e
      | Returned report_dict \<Rightarrow>
          (case retrieve_market_results self lib (snd net) report_dict of
             Inl e \<Rightarrow> Raised e
           | Inr r \<Rightarrow> Returned r))"

text \<open>
  The exception classes given to \<^verbatim>\<open>backoff.on_exception\<close>:
  \<^verbatim>\<open>(aiohttp.ClientError, KeyError)\<close>.
\<close>

fun retried :: "error \<Rightarrow> bool" where
  "retried ClientError = True"
| "retried (KeyError k) = True"
| "retried _ = False"

text \<open>
  \<^verbatim>\<open>fetch\<close> under its decorator, which has neither \<^verbatim>\<open>max_tries\<close> nor \<^verbatim>\<open>max_time\<close>: the
  body is run again after every exception of the two classes, and any other exception
  goes to the caller. The argument lists what the network answers in the successive runs;
  the result counts the runs started.
\<close>

fun fetch ::
  "AioPrices \<Rightarrow> ('dt, 'ldt) libs
   \<Rightarrow> (index_doc response list \<times> (string \<Rightarrow> detail_doc response)) list
   \<Rightarrow> nat \<times> result outcome" where
  "fetch self lib [] = (1, Awaiting)"
| "fetch self lib (net # later) =
     (case fetch_body self lib net of
        Raised e \<Rightarrow>
          if retried e then (case fetch self lib later of (n, out) \<Rightarrow> (Suc n, out))
          else (1, Raised e)
      | out \<Rightarrow> (1, out))"

subsection \<open>Concrete inputs\<close>

text \<open>The client with the constructor's defaults.\<close>

definition default_client :: AioPrices where
  "default_client = \<lparr>currency = ''euro'', market_area = ''ROI'', timezone = ''Europe/Dublin''\<rparr>"

text \<open>
  Libraries for the examples: a date is its epoch second, the parser knows the one string
  of the scenario, a local date is the date with its zone.
\<close>

definition example_libs :: "(int, int \<times> string) libs" where
  "example_libs =
     \<lparr>parse_dt = (\<lambda>s. if s = ''2024-01-01T00:00:00Z'' then Some 1704067200 else None),
      all_timezones = [''Europe/Dublin'', ''UTC''],
      timestamp = (\<lambda>d. d),
      astimezone = (\<lambda>d z. (d, z)),
      strftime = (\<lambda>l. ''2024/01/01 00:00:00'')\<rparr>"

text \<open>One index page whose items are dated 2 January, 1 January, 2 January.\<close>

definition unsorted_page :: index_doc where
  "unsorted_page =
     \<lparr>items = Some [\<lparr>Date = ''2024-01-02T11:00:00'', ResourceName = ''A''\<rparr>,
                    \<lparr>Date = ''2024-01-01T11:00:00'', ResourceName = ''B''\<rparr>,
                    \<lparr>Date = ''2024-01-02T09:00:00'', ResourceName = ''C''\<rparr>],
      totalPages = Some 1\<rparr>"

text \<open>
  The row of the scenario, its element 0 the string \<^verbatim>\<open>"ROI-desc"\<close>, and a detail endpoint
  that answers every request with the document holding that row.
\<close>

definition flat_row :: data_set where
  "flat_row = \<lparr>el0 = Str ''ROI-desc'', el2 = [''2024-01-01T00:00:00Z''], el3 = [1000]\<rparr>"

definition flat_api :: "string \<Rightarrow> detail_doc response" where
  "flat_api resource_name = Inr (Some (DocRows [flat_row]))"

text \<open>The same with element 0 a list whose element 1 is \<^verbatim>\<open>"ROI-desc"\<close>.\<close>

definition nested_row :: data_set where
  "nested_row = \<lparr>el0 = Lst [''Index prices'', ''ROI-desc''],
                 el2 = [''2024-01-01T00:00:00Z''], el3 = [1000]\<rparr>"

definition nested_api :: "string \<Rightarrow> detail_doc response" where
  "nested_api resource_name = Inr (Some (DocRows [nested_row]))"

text \<open>One date group with the one resource \<^verbatim>\<open>SEM-DA-1\<close>.\<close>

definition one_da_report :: report_dict where
  "one_da_report = [(''2024-01-01'', \<lparr>date = ''2024-01-01'', resources = [''SEM-DA-1'']\<rparr>)]"

subsection \<open>Reference definitions for the statements\<close>

text \<open>
  What merging one pair of a parsed timestamp and a price does to the record dictionary:
  the record of the timestamp is created when it is missing, and its rate under the
  prefix is set to the price divided by 1000.
\<close>

fun store_price ::
  "AioPrices \<Rightarrow> ('dt, 'ldt) libs \<Rightarrow> string \<Rightarrow> rec_dict \<Rightarrow> (int \<times> 'ldt) \<times> rat \<Rightarrow> rec_dict"
where
  "store_price self lib context_prefix rec_dict ((ts, local_dt), price) =
     rec_dict(ts \<mapsto>
       (case rec_dict ts of
          None \<Rightarrow>
            [''ts'' \<mapsto> VInt ts,
             ''datetime'' \<mapsto> VStr (strftime lib local_dt),
             ''market_area'' \<mapsto> VStr (market_area self),
             ''currency'' \<mapsto> VStr (currency self)]
        | Some r \<Rightarrow> r)(context_prefix @ ''kwh_rate'' \<mapsto> VNum (price / 1000)))"

subsection \<open>Auxiliary notions for the proofs\<close>

text \<open>
  \<open>overlay T B W\<close> is the shape of every successful run of the merge loops: at the
  timestamps \<open>T\<close> the record is taken from the dictionary, or is the fresh record \<open>B t\<close>
  where there is none, and then gets the fields \<open>W t\<close>; all other timestamps are left as
  they are. \<open>writes_only f\<close>: the step \<open>f\<close> raises the same exception from every record
  dictionary, or is such an overlay.
\<close>

definition overlay ::
  "int set \<Rightarrow> (int \<Rightarrow> data_rec) \<Rightarrow> (int \<Rightarrow> data_rec) \<Rightarrow> rec_dict \<Rightarrow> rec_dict" where
  "overlay T B W rd =
     (\<lambda>t. if t \<in> T then Some ((case rd t of None \<Rightarrow> B t | Some r \<Rightarrow> r) ++ W t) else rd t)"

definition writes_only :: "(rec_dict \<Rightarrow> error + rec_dict) \<Rightarrow> bool" where
  "writes_only f =
     ((\<exists>e. \<forall>rd. f rd = Inl e) \<or> (\<exists>T B W. \<forall>rd. f rd = Inr (overlay T B W rd)))"


text \<open>The record dictionary of the day-ahead scenario before finalization.\<close>

definition da_records :: rec_dict where
  "da_records =
     [1704067200 \<mapsto>
        [''ts'' \<mapsto> VInt 1704067200,
         ''datetime'' \<mapsto> VStr ''2024/01/01 00:00:00'',
         ''market_area'' \<mapsto> VStr ''ROI'',
         ''currency'' \<mapsto> VStr ''euro'',
         ''da_kwh_rate'' \<mapsto> VNum 1]]"

subsection \<open>Reference definitions for the priority rule\<close>

text \<open>
  The session fields in priority order, highest first, and the value of the first of them
  that a record has (\<open>None\<close> when it has none of them).
\<close>

definition session_fields :: "string list" where
  "session_fields = [''ida3_kwh_rate'', ''ida2_kwh_rate'', ''ida1_kwh_rate'', ''da_kwh_rate'']"

fun first_present :: "data_rec \<Rightarrow> string list \<Rightarrow> val option" where
  "first_present r [] = None"
| "first_present r (k # ks) = (case r k of Some v \<Rightarrow> Some v | None \<Rightarrow> first_present r ks)"

text \<open>No record of the dictionary has a final rate yet.\<close>

definition no_final :: "rec_dict \<Rightarrow> bool" where
  "no_final rd = (\<forall>t r. rd t = Some r \<longrightarrow> r ''final_kwh_rate'' = None)"

text \<open>
  A day-ahead and a second intraday resource for the same timestamp, with prices 1000 and
  1200, and the record expected for it.
\<close>

definition two_session_api :: "string \<Rightarrow> detail_doc response" where
  "two_session_api resource_name =
     (if resource_name = ''SEM-IDA2-1''
      then Inr (Some (DocRows [\<lparr>el0 = Lst [''Index prices'', ''ROI-desc''],
                                el2 = [''2024-01-01T00:00:00Z''], el3 = [1200]\<rparr>]))
      else Inr (Some (DocRows [nested_row])))"

definition two_session_report :: report_dict where
  "two_session_report =
     [(''2024-01-01'', \<lparr>date = ''2024-01-01'', resources = [''SEM-DA-1'', ''SEM-IDA2-1'']\<rparr>)]"

definition two_session_record :: data_rec where
  "two_session_record =
     [''ts'' \<mapsto> VInt 1704067200,
      ''datetime'' \<mapsto> VStr ''2024/01/01 00:00:00'',
      ''market_area'' \<mapsto> VStr ''ROI'',
      ''currency'' \<mapsto> VStr ''euro'',
      ''da_kwh_rate'' \<mapsto> VNum 1,
      ''ida2_kwh_rate'' \<mapsto> VNum (6 / 5),
      ''final_kwh_rate'' \<mapsto> VNum (6 / 5)]"

subsection \<open>Inputs for the error scenarios\<close>

text \<open>The report dictionary with every occurrence of a resource taken out.\<close>

definition without_resource :: "string \<Rightarrow> report_dict \<Rightarrow> report_dict" where
  "without_resource resource_name report_dict =
     map (\<lambda>(key, report). (key, report\<lparr>resources := removeAll resource_name (resources report)\<rparr>))
       report_dict"

text \<open>
  A detail endpoint that answers 204 for the resource \<^verbatim>\<open>SEM-DA-0\<close>, and a date group that
  lists this resource before \<^verbatim>\<open>SEM-DA-1\<close>.
\<close>

definition gap_api :: "string \<Rightarrow> detail_doc response" where
  "gap_api resource_name = (if resource_name = ''SEM-DA-0'' then Inr None else nested_api resource_name)"

definition gap_report :: report_dict where
  "gap_report = [(''2024-01-01'', \<lparr>date = ''2024-01-01'', resources = [''SEM-DA-0'', ''SEM-DA-1'']\<rparr>)]"

text \<open>A client whose timezone is no timezone, and an index page with one resource.\<close>

definition mars_client :: AioPrices where
  "mars_client = \<lparr>currency = ''euro'', market_area = ''ROI'', timezone = ''Mars/Olympus''\<rparr>"

definition one_da_page :: index_doc where
  "one_da_page = \<lparr>items = Some [\<lparr>Date = ''2024-01-01T11:00:00'', ResourceName = ''SEM-DA-1''\<rparr>],
                   totalPages = Some 1\<rparr>"

subsection \<open>Reference definitions for the walker\<close>

text \<open>A well-formed index page: its items and the \<open>totalPages\<close> it reports.\<close>

type_synonym index_page = "item_rec list \<times> int"

text \<open>The answer of the index endpoint that carries a page.\<close>

definition answer :: "index_page \<Rightarrow> index_doc response" where
  "answer pg = Inr (Some \<lparr>items = Some (fst pg), totalPages = Some (snd pg)\<rparr>)"

text \<open>The distinct date keys of the items of the pages seen.\<close>

definition date_keys :: "index_page list \<Rightarrow> string list" where
  "date_keys seen = remdups (map (\<lambda>item. take 10 (Date item)) (concat (map fst seen)))"

text \<open>
  The stop condition after the pages \<open>seen\<close>, in the words of the specification: the
  number of the last page (the pages are numbered from 1) has reached the \<open>totalPages\<close>
  that page reports, or there are more distinct date groups than \<open>min_days\<close>.
\<close>

definition stop_at :: "int \<Rightarrow> index_page list \<Rightarrow> bool" where
  "stop_at min_days seen =
     (seen \<noteq> [] \<and>
      (int (length seen) \<ge> snd (last seen) \<or> int (length (date_keys seen)) > min_days))"

text \<open>
  How many of the pages \<open>pages\<close>, coming after the pages \<open>seen\<close>, are read until the stop
  condition holds for the first time (\<open>None\<close>: it holds after none of them).
\<close>

fun first_stop :: "int \<Rightarrow> index_page list \<Rightarrow> index_page list \<Rightarrow> nat option" where
  "first_stop min_days seen [] = None"
| "first_stop min_days seen (pg # rest) =
     (if stop_at min_days (seen @ [pg]) then Some 1
      else map_option Suc (first_stop min_days (seen @ [pg]) rest))"

fun returned :: "'a outcome \<Rightarrow> bool" where
  "returned (Returned x) = True"
| "returned _ = False"

text \<open>
  The invariant of the walker's state: the keys of the dictionary are distinct, and
  \<^verbatim>\<open>report\<close> is bound once the dictionary has a group.
\<close>

definition walk_inv :: "walk_state \<Rightarrow> bool" where
  "walk_inv st = (distinct (map fst (fst st)) \<and> (fst st = [] \<or> snd st \<noteq> None))"

text \<open>
  The pagination scenario: two pages of three items, dated D3, D3, D2 and D2, D1, D1,
  each reporting two pages in total. And an index that reports no page at all.
\<close>

definition two_pages :: "index_page list" where
  "two_pages =
     [([\<lparr>Date = ''2024-01-03T11:00:00'', ResourceName = ''R1''\<rparr>,
        \<lparr>Date = ''2024-01-03T09:00:00'', ResourceName = ''R2''\<rparr>,
        \<lparr>Date = ''2024-01-02T11:00:00'', ResourceName = ''R3''\<rparr>], 2),
      ([\<lparr>Date = ''2024-01-02T09:00:00'', ResourceName = ''R4''\<rparr>,
        \<lparr>Date = ''2024-01-01T11:00:00'', ResourceName = ''R5''\<rparr>,
        \<lparr>Date = ''2024-01-01T09:00:00'', ResourceName = ''R6''\<rparr>], 2)]"

definition empty_index :: "index_doc response list" where
  "empty_index = [Inr (Some \<lparr>items = Some [], totalPages = Some 0\<rparr>)]"

subsection \<open>Inputs for the price conversion\<close>



section \<open>Verification\<close>

subsection \<open>Grouping of the index items\<close>

text \<open>
  C1. The claim: every item's \<^verbatim>\<open>ResourceName\<close> is appended to the group of the first ten
  characters of its own \<^verbatim>\<open>Date\<close>, and to no other group. The code appends to the object
  bound to \<^verbatim>\<open>report\<close>, which is rebound only when a group is created. On a page whose
  items are dated 2 January, 1 January, 2 January, the third item, \<open>C\<close>, dated 2 January,
  ends in the group of 1 January.
\<close>

theorem walker_appends_to_latest_group:
  "fetch_semopx_json 5 [Inr (Some unsorted_page)] =
     ([1], Returned [(''2024-01-02'', \<lparr>date = ''2024-01-02'', resources = [''A'']\<rparr>),
                     (''2024-01-01'', \<lparr>date = ''2024-01-01'', resources = [''B'', ''C'']\<rparr>)])"
  by (simp add: fetch_semopx_json_def unsorted_page_def Let_def)

subsection \<open>The day-ahead scenario\<close>

text \<open>
  C3, the claim as stated fails. With the row \<^verbatim>\<open>["ROI-desc", _, ["2024-01-01T00:00:00Z"], [1000]]\<close>
  the area test of line 95 reads \<^verbatim>\<open>data_set_list[0][1]\<close>, the second character \<^verbatim>\<open>"O"\<close> of
  the string; \<^verbatim>\<open>"ROI"\<close> does not occur in it, the row is skipped, and the result has no
  record at all.
\<close>

theorem flat_descriptor_row_is_skipped:
  "retrieve_market_results default_client example_libs flat_api one_da_report
     = Inr \<lparr>areas = Map.empty\<rparr>"
  by (simp add: retrieve_market_results_def merge_resource_def determine_context_prefix_def
      merge_row_def area_of_def py_index_def default_client_def flat_api_def flat_row_def
      one_da_report_def finalize_records_def)

text \<open>
  C3, amended. When the descriptor \<^verbatim>\<open>"ROI-desc"\<close> is element 1 of the row's element 0 (the
  place the code reads), the resource name contains \<^verbatim>\<open>SEM-DA\<close>, the market area is
  \<^verbatim>\<open>ROI\<close>, the parser accepts the timestamp and the timezone is a known one, then the
  result holds exactly one record, keyed by the epoch second of the timestamp, with
  \<^verbatim>\<open>da_kwh_rate\<close> 1 and \<^verbatim>\<open>final_kwh_rate\<close> 1.
\<close>

theorem nested_descriptor_row_gives_one_record:
  assumes da: "str_in ''SEM-DA'' resource_name"
    and doc: "api resource_name =
        Inr (Some (DocRows [\<lparr>el0 = Lst [label, ''ROI-desc''],
                             el2 = [''2024-01-01T00:00:00Z''], el3 = [1000]\<rparr>]))"
    and area: "market_area self = ''ROI''"
    and parsed: "parse_dt lib ''2024-01-01T00:00:00Z'' = Some d"
    and tz: "timezone self \<in> set (all_timezones lib)"
  shows "retrieve_market_results self lib api [(key, \<lparr>date = key, resources = [resource_name]\<rparr>)]
     = Inr \<lparr>areas =
         [timestamp lib d \<mapsto>
            [''ts'' \<mapsto> VInt (timestamp lib d),
             ''datetime'' \<mapsto> VStr (strftime lib (astimezone lib d (timezone self))),
             ''market_area'' \<mapsto> VStr ''ROI'',
             ''currency'' \<mapsto> VStr (currency self),
             ''da_kwh_rate'' \<mapsto> VNum 1,
             ''final_kwh_rate'' \<mapsto> VNum 1]]\<rparr>"
proof -
  have row: "merge_row self lib ''da_'' Map.empty
       \<lparr>el0 = Lst [label, ''ROI-desc''], el2 = [''2024-01-01T00:00:00Z''], el3 = [1000]\<rparr>
     = Inr [timestamp lib d \<mapsto>
            [''ts'' \<mapsto> VInt (timestamp lib d),
             ''datetime'' \<mapsto> VStr (strftime lib (astimezone lib d (timezone self))),
             ''market_area'' \<mapsto> VStr ''ROI'',
             ''currency'' \<mapsto> VStr (currency self),
             ''da_kwh_rate'' \<mapsto> VNum 1]]"
    using area parsed tz
    by (simp add: merge_row_def area_of_def py_index_def parse_semopx_time_def merge_prices_def)
  have fin: "finalize_rec [''ts'' \<mapsto> VInt (timestamp lib d),
             ''datetime'' \<mapsto> VStr (strftime lib (astimezone lib d (timezone self))),
             ''market_area'' \<mapsto> VStr ''ROI'',
             ''currency'' \<mapsto> VStr (currency self),
             ''da_kwh_rate'' \<mapsto> VNum 1]
     = [''ts'' \<mapsto> VInt (timestamp lib d),
             ''datetime'' \<mapsto> VStr (strftime lib (astimezone lib d (timezone self))),
             ''market_area'' \<mapsto> VStr ''ROI'',
             ''currency'' \<mapsto> VStr (currency self),
             ''da_kwh_rate'' \<mapsto> VNum 1,
             ''final_kwh_rate'' \<mapsto> VNum 1]"
    by (simp add: finalize_rec_def)
  show ?thesis
    using da doc
    by (simp add: retrieve_market_results_def merge_resource_def determine_context_prefix_def
        row finalize_records_def fin fun_eq_iff)
qed

theorem nested_descriptor_row_witness:
  "retrieve_market_results default_client example_libs nested_api one_da_report
     = Inr \<lparr>areas =
         [1704067200 \<mapsto>
            [''ts'' \<mapsto> VInt 1704067200,
             ''datetime'' \<mapsto> VStr ''2024/01/01 00:00:00'',
             ''market_area'' \<mapsto> VStr ''ROI'',
             ''currency'' \<mapsto> VStr ''euro'',
             ''da_kwh_rate'' \<mapsto> VNum 1,
             ''final_kwh_rate'' \<mapsto> VNum 1]]\<rparr>"
  using nested_descriptor_row_gives_one_record
    [of "''SEM-DA-1''" nested_api "''Index prices''" default_client example_libs 1704067200 "''2024-01-01''"]
  by (simp add: nested_api_def nested_row_def default_client_def example_libs_def
      one_da_report_def)

subsection \<open>Timestamp and price lists of different lengths\<close>

lemma py_index_in_range:
  "0 \<le> i \<Longrightarrow> i < int (length xs) \<Longrightarrow> py_index xs i = Inr (xs ! nat i)"
  by (simp add: py_index_def)

lemma py_index_beyond:
  "int (length xs) \<le> i \<Longrightarrow> py_index xs i = Inl IndexError"
  by (auto simp: py_index_def)

lemma zip_take_left: "zip (take (length ys) xs) ys = zip xs ys"
proof (induction xs arbitrary: ys)
  case Nil
  then show ?case by simp
next
  case (Cons x xs)
  then show ?case by (cases ys) simp_all
qed

text \<open>With more prices left than keys, the loop runs into the end of the key list.\<close>

lemma merge_loop_raises:
  "- 1 \<le> i \<Longrightarrow> i + 1 \<le> int (length key_list) \<Longrightarrow>
   int (length key_list) < i + 1 + int (length prices) \<Longrightarrow>
   merge_loop self lib key_list pfx prices i rd = Inl IndexError"
proof (induction prices arbitrary: i rd)
  case Nil
  then show ?case by simp
next
  case (Cons price rest)
  show ?case
  proof (cases "i + 1 < int (length key_list)")
    case True
    with Cons.prems have idx: "py_index key_list (i + 1) = Inr (key_list ! nat (i + 1))"
      by (simp add: py_index_in_range)
    have "merge_loop self lib key_list pfx rest (i + 1) rd' = Inl IndexError" for rd'
      using Cons.prems True by (intro Cons.IH) auto
    then show ?thesis
      by (simp add: idx Let_def split: prod.splits)
  next
    case False
    then have "py_index key_list (i + 1) = Inl IndexError"
      by (intro py_index_beyond) simp
    then show ?thesis by simp
  qed
qed

text \<open>With enough keys, the loop stores the prices pair by pair, in order.\<close>

lemma merge_loop_stores:
  "- 1 \<le> i \<Longrightarrow> i + 1 + int (length prices) \<le> int (length key_list) \<Longrightarrow>
   merge_loop self lib key_list pfx prices i rd
     = Inr (foldl (store_price self lib pfx) rd (zip (drop (nat (i + 1)) key_list) prices))"
proof (induction prices arbitrary: i rd)
  case Nil
  then show ?case by simp
next
  case (Cons price rest)
  from Cons.prems have lt: "nat (i + 1) < length key_list" by auto
  with Cons.prems have idx: "py_index key_list (i + 1) = Inr (key_list ! nat (i + 1))"
    by (simp add: py_index_in_range)
  have dr: "drop (nat (i + 1)) key_list = key_list ! nat (i + 1) # drop (nat (i + 1 + 1)) key_list"
  proof -
    have "nat (i + 1 + 1) = Suc (nat (i + 1))" using Cons.prems by simp
    then show ?thesis using lt by (simp only: Cons_nth_drop_Suc)
  qed
  have "merge_loop self lib key_list pfx rest (i + 1) rd'
     = Inr (foldl (store_price self lib pfx) rd' (zip (drop (nat (i + 1 + 1)) key_list) rest))" for rd'
    using Cons.prems by (intro Cons.IH) auto
  then show ?case
    by (simp add: idx dr Let_def split: prod.splits)
qed

text \<open>
  C10. \<open>key_list\<close> is the parsed timestamp list of the row (as long as the row's element 2,
  see \<open>parse_all_length\<close>), \<open>el3 row\<close> its price list. With strictly more prices than
  timestamps \<^verbatim>\<open>_merge_prices\<close> raises \<^verbatim>\<open>IndexError\<close>. With strictly fewer it raises nothing
  and stores exactly the pairs of the first \<open>length (el3 row)\<close> timestamps with the prices;
  the timestamps after them play no part.
\<close>

theorem price_list_length_mismatch:
  "(length key_list < length (el3 row) \<longrightarrow>
      merge_prices self lib rd key_list row pfx = Inl IndexError) \<and>
   (length (el3 row) < length key_list \<longrightarrow>
      merge_prices self lib rd key_list row pfx
        = Inr (foldl (store_price self lib pfx) rd
                 (zip (take (length (el3 row)) key_list) (el3 row))))"
proof (intro conjI impI)
  assume "length key_list < length (el3 row)"
  then show "merge_prices self lib rd key_list row pfx = Inl IndexError"
    unfolding merge_prices_def by (intro merge_loop_raises) auto
next
  assume "length (el3 row) < length key_list"
  then have "merge_prices self lib rd key_list row pfx
     = Inr (foldl (store_price self lib pfx) rd (zip (drop (nat (- 1 + 1)) key_list) (el3 row)))"
    unfolding merge_prices_def by (intro merge_loop_stores) auto
  then show "merge_prices self lib rd key_list row pfx
        = Inr (foldl (store_price self lib pfx) rd
                 (zip (take (length (el3 row)) key_list) (el3 row)))"
    by (simp add: zip_take_left)
qed

lemma parse_all_length:
  "parse_all self lib ss = Inr key_list \<Longrightarrow> length key_list = length ss"
  by (induction ss arbitrary: key_list) (auto split: sum.splits)

theorem price_list_length_mismatch_witness:
  "merge_prices default_client example_libs Map.empty [] flat_row ''da_'' = Inl IndexError \<and>
   merge_prices default_client example_libs Map.empty
       [(1704067200, (1704067200, ''UTC'')), (1704070800, (1704070800, ''UTC''))] flat_row ''da_''
     = Inr [1704067200 \<mapsto>
              [''ts'' \<mapsto> VInt 1704067200,
               ''datetime'' \<mapsto> VStr ''2024/01/01 00:00:00'',
               ''market_area'' \<mapsto> VStr ''ROI'',
               ''currency'' \<mapsto> VStr ''euro'',
               ''da_kwh_rate'' \<mapsto> VNum 1]]"
  using price_list_length_mismatch
      [of "[]" flat_row default_client example_libs Map.empty "''da_''"]
    price_list_length_mismatch
      [of "[(1704067200, (1704067200, ''UTC'')), (1704070800, (1704070800, ''UTC''))]"
          flat_row default_client example_libs Map.empty "''da_''"]
  by (simp add: flat_row_def default_client_def example_libs_def)

subsection \<open>Merging twice\<close>

lemma overlay_twice: "overlay T B W (overlay T B W rd) = overlay T B W rd"
  by (auto simp: overlay_def fun_eq_iff map_add_def split: option.splits)

lemma writes_only_idem:
  assumes "writes_only f" and "f rd = Inr rd'"
  shows "f rd' = Inr rd'"
proof -
  from assms obtain T B W where f: "\<And>x. f x = Inr (overlay T B W x)"
    unfolding writes_only_def by force
  with assms(2) have "rd' = overlay T B W rd" by simp
  then show ?thesis by (simp add: f overlay_twice)
qed

lemma writes_only_raise: "writes_only (\<lambda>rd. Inl e)"
  unfolding writes_only_def by blast

lemma writes_only_return: "writes_only (\<lambda>rd. Inr rd)"
proof -
  have "\<forall>rd. Inr rd = (Inr (overlay {} (\<lambda>t. Map.empty) (\<lambda>t. Map.empty) rd) :: error + rec_dict)"
    by (simp add: overlay_def)
  then show ?thesis unfolding writes_only_def by blast
qed

lemma writes_only_store: "writes_only (\<lambda>rd. Inr (store_price self lib pfx rd kp))"
proof -
  obtain ts local_dt price where kp: "kp = ((ts, local_dt), price)"
    by (metis surj_pair)
  let ?B = "\<lambda>t::int. [''ts'' \<mapsto> VInt ts,
             ''datetime'' \<mapsto> VStr (strftime lib local_dt),
             ''market_area'' \<mapsto> VStr (market_area self),
             ''currency'' \<mapsto> VStr (currency self)]"
  let ?W = "\<lambda>t::int. [pfx @ ''kwh_rate'' \<mapsto> VNum (price / 1000)]"
  have "\<forall>rd. Inr (store_price self lib pfx rd kp) = (Inr (overlay {ts} ?B ?W rd) :: error + rec_dict)"
    by (auto simp: kp overlay_def fun_eq_iff split: option.splits)
  then show ?thesis unfolding writes_only_def by blast
qed

lemma overlay_overlay:
  "overlay T2 B2 W2 (overlay T1 B1 W1 rd)
     = overlay (T1 \<union> T2) (\<lambda>t. if t \<in> T1 then B1 t else B2 t)
         (\<lambda>t. (if t \<in> T1 then W1 t else Map.empty) ++ (if t \<in> T2 then W2 t else Map.empty)) rd"
  by (auto simp: overlay_def fun_eq_iff split: option.splits)

lemma writes_only_seq:
  assumes "writes_only f" and "writes_only g"
  shows "writes_only (\<lambda>rd. case f rd of Inl e \<Rightarrow> Inl e | Inr rd' \<Rightarrow> g rd')"
proof -
  consider (ferr) e where "\<forall>rd. f rd = Inl e"
    | (gerr) T B W e where "\<forall>rd. f rd = Inr (overlay T B W rd)" "\<forall>rd. g rd = Inl e"
    | (ok) T1 B1 W1 T2 B2 W2 where "\<forall>rd. f rd = Inr (overlay T1 B1 W1 rd)"
        "\<forall>rd. g rd = Inr (overlay T2 B2 W2 rd)"
    using assms unfolding writes_only_def by blast
  then show ?thesis
  proof cases
    case ferr
    then show ?thesis by (simp add: writes_only_raise)
  next
    case gerr
    then show ?thesis by (simp add: writes_only_raise)
  next
    case ok
    then have "\<forall>rd. (case f rd of Inl e \<Rightarrow> Inl e | Inr rd' \<Rightarrow> g rd')
        = Inr (overlay (T1 \<union> T2) (\<lambda>t. if t \<in> T1 then B1 t else B2 t)
         (\<lambda>t. (if t \<in> T1 then W1 t else Map.empty) ++ (if t \<in> T2 then W2 t else Map.empty)) rd)"
      by (simp add: overlay_overlay)
    then show ?thesis unfolding writes_only_def by blast
  qed
qed

lemma merge_loop_step:
  "merge_loop self lib key_list pfx (price # rest) i rd =
     (case py_index key_list (i + 1) of
        Inl e \<Rightarrow> Inl e
      | Inr k \<Rightarrow> merge_loop self lib key_list pfx rest (i + 1) (store_price self lib pfx rd (k, price)))"
  by (simp add: Let_def split: sum.splits prod.splits)

lemma writes_only_merge_loop: "writes_only (merge_loop self lib key_list pfx prices i)"
proof (induction prices arbitrary: i)
  case Nil
  have "merge_loop self lib key_list pfx [] i = (\<lambda>rd. Inr rd)" by (simp add: fun_eq_iff)
  then show ?case by (simp add: writes_only_return)
next
  case (Cons price rest)
  show ?case
  proof (cases "py_index key_list (i + 1)")
    case (Inl e)
    then have "merge_loop self lib key_list pfx (price # rest) i = (\<lambda>rd. Inl e)"
      by (simp add: fun_eq_iff merge_loop_step del: merge_loop.simps)
    then show ?thesis by (simp add: writes_only_raise)
  next
    case (Inr k)
    then have "merge_loop self lib key_list pfx (price # rest) i
       = (\<lambda>rd. case Inr (store_price self lib pfx rd (k, price)) of
                  Inl e \<Rightarrow> Inl e
                | Inr rd' \<Rightarrow> merge_loop self lib key_list pfx rest (i + 1) rd')"
      by (simp add: fun_eq_iff merge_loop_step del: merge_loop.simps)
    then show ?thesis
      using writes_only_seq [OF writes_only_store Cons.IH] by simp
  qed
qed

lemma writes_only_merge_prices:
  "writes_only (\<lambda>rd. merge_prices self lib rd key_list row pfx)"
  using writes_only_merge_loop [of self lib key_list pfx "el3 row" "- 1"]
  by (simp add: merge_prices_def)

lemma writes_only_merge_row: "writes_only (\<lambda>rd. merge_row self lib pfx rd row)"
proof (cases "area_of row")
  case (Inl e)
  then show ?thesis by (simp add: merge_row_def writes_only_raise)
next
  case area: (Inr area)
  show ?thesis
  proof (cases "str_in (market_area self) area")
    case False
    with area show ?thesis by (simp add: merge_row_def writes_only_return)
  next
    case True
    show ?thesis
    proof (cases "parse_all self lib (el2 row)")
      case (Inl e)
      with area True show ?thesis by (simp add: merge_row_def writes_only_raise)
    next
      case (Inr key_list)
      with area True show ?thesis by (simp add: merge_row_def writes_only_merge_prices)
    qed
  qed
qed

lemma writes_only_merge_rows: "writes_only (merge_rows self lib pfx rows)"
proof (induction rows)
  case Nil
  have "merge_rows self lib pfx [] = (\<lambda>rd. Inr rd)" by (simp add: fun_eq_iff)
  then show ?case by (simp add: writes_only_return)
next
  case (Cons row rest)
  have "merge_rows self lib pfx (row # rest)
     = (\<lambda>rd. case merge_row self lib pfx rd row of Inl e \<Rightarrow> Inl e
              | Inr rd' \<Rightarrow> merge_rows self lib pfx rest rd')"
    by (simp add: fun_eq_iff)
  then show ?case
    using writes_only_seq [OF writes_only_merge_row Cons.IH] by simp
qed

lemma writes_only_merge_resource: "writes_only (\<lambda>rd. merge_resource self lib api rd name)"
proof (cases "api name")
  case (Inl e)
  then show ?thesis by (simp add: merge_resource_def writes_only_raise)
next
  case resp: (Inr resp)
  show ?thesis
  proof (cases resp)
    case None
    with resp show ?thesis by (simp add: merge_resource_def writes_only_return)
  next
    case (Some doc)
    show ?thesis
    proof (cases "doc = EmptyDoc \<or> determine_context_prefix name = None")
      case True
      with resp Some show ?thesis
        by (cases doc) (auto simp: merge_resource_def writes_only_return)
    next
      case False
      then obtain pfx where "determine_context_prefix name = Some pfx" by auto
      with resp Some False show ?thesis
        by (cases doc) (auto simp: merge_resource_def writes_only_merge_rows writes_only_return)
    qed
  qed
qed

lemma writes_only_merge_resources: "writes_only (merge_resources self lib api names)"
proof (induction names)
  case Nil
  have "merge_resources self lib api [] = (\<lambda>rd. Inr rd)" by (simp add: fun_eq_iff)
  then show ?case by (simp add: writes_only_return)
next
  case (Cons name rest)
  have "merge_resources self lib api (name # rest)
     = (\<lambda>rd. case merge_resource self lib api rd name of Inl e \<Rightarrow> Inl e
              | Inr rd' \<Rightarrow> merge_resources self lib api rest rd')"
    by (simp add: fun_eq_iff)
  then show ?case
    using writes_only_seq [OF writes_only_merge_resource Cons.IH] by simp
qed

lemma writes_only_merge_reports: "writes_only (merge_reports self lib api report_dict)"
proof (induction report_dict)
  case Nil
  have "merge_reports self lib api [] = (\<lambda>rd. Inr rd)" by (simp add: fun_eq_iff)
  then show ?case by (simp add: writes_only_return)
next
  case (Cons kr rest)
  obtain key report where kr: "kr = (key, report)" by (cases kr)
  have "merge_reports self lib api (kr # rest)
     = (\<lambda>rd. case merge_resources self lib api (resources report) rd of Inl e \<Rightarrow> Inl e
              | Inr rd' \<Rightarrow> merge_reports self lib api rest rd')"
    by (simp add: fun_eq_iff kr)
  then show ?case
    using writes_only_seq [OF writes_only_merge_resources Cons.IH] by simp
qed

text \<open>
  C5. A merge that has succeeded, applied once more with the same inputs to the record
  dictionary it produced, succeeds and gives that same dictionary: for one call of
  \<^verbatim>\<open>_merge_prices\<close>, for the rows of a document, and for all resources of all reports.
  Every rate is overwritten with the same value.
\<close>

theorem merging_twice_is_merging_once:
  "(merge_prices self lib rd key_list row pfx = Inr rd1 \<longrightarrow>
      merge_prices self lib rd1 key_list row pfx = Inr rd1) \<and>
   (merge_rows self lib pfx rows rd = Inr rd2 \<longrightarrow>
      merge_rows self lib pfx rows rd2 = Inr rd2) \<and>
   (merge_reports self lib api report_dict rd = Inr rd3 \<longrightarrow>
      merge_reports self lib api report_dict rd3 = Inr rd3)"
proof (intro conjI impI)
  assume "merge_prices self lib rd key_list row pfx = Inr rd1"
  then show "merge_prices self lib rd1 key_list row pfx = Inr rd1"
    unfolding merge_prices_def by (rule writes_only_idem [OF writes_only_merge_loop])
next
  assume "merge_rows self lib pfx rows rd = Inr rd2"
  then show "merge_rows self lib pfx rows rd2 = Inr rd2"
    by (rule writes_only_idem [OF writes_only_merge_rows])
next
  assume "merge_reports self lib api report_dict rd = Inr rd3"
  then show "merge_reports self lib api report_dict rd3 = Inr rd3"
    by (rule writes_only_idem [OF writes_only_merge_reports])
qed


theorem merging_twice_witness:
  "merge_prices default_client example_libs Map.empty
       [(1704067200, (1704067200, ''Europe/Dublin''))] nested_row ''da_'' = Inr da_records \<and>
   merge_prices default_client example_libs da_records
       [(1704067200, (1704067200, ''Europe/Dublin''))] nested_row ''da_'' = Inr da_records \<and>
   merge_rows default_client example_libs ''da_'' [nested_row] da_records = Inr da_records \<and>
   merge_reports default_client example_libs nested_api one_da_report da_records = Inr da_records"
proof -
  have one: "merge_prices default_client example_libs Map.empty
       [(1704067200, (1704067200, ''Europe/Dublin''))] nested_row ''da_'' = Inr da_records"
    by (simp add: merge_prices_def nested_row_def py_index_def default_client_def
        example_libs_def da_records_def)
  have row: "merge_rows default_client example_libs ''da_'' [nested_row] Map.empty = Inr da_records"
    using one
    by (simp add: merge_row_def area_of_def nested_row_def py_index_def default_client_def
        example_libs_def parse_semopx_time_def)
  have all: "merge_reports default_client example_libs nested_api one_da_report Map.empty
      = Inr da_records"
    using row
    by (simp add: one_da_report_def merge_resource_def nested_api_def
        determine_context_prefix_def)
  show ?thesis
    using one row all
      merging_twice_is_merging_once
        [of default_client example_libs Map.empty
            "[(1704067200, (1704067200, ''Europe/Dublin''))]" nested_row "''da_''" da_records
            "[nested_row]" da_records nested_api one_da_report da_records]
    by simp
qed

subsection \<open>The final rate\<close>

text \<open>
  The merge loops write session rates only, so no record has a final rate before
  \<^verbatim>\<open>_finalize_records\<close> runs.
\<close>

lemma context_prefix_cases:
  "determine_context_prefix name = Some pfx \<Longrightarrow>
   pfx = ''da_'' \<or> pfx = ''ida1_'' \<or> pfx = ''ida2_'' \<or> pfx = ''ida3_''"
  by (auto simp: determine_context_prefix_def split: if_splits)

lemma context_prefix_not_final:
  "determine_context_prefix name = Some pfx \<Longrightarrow> pfx \<noteq> ''final_''"
  by (drule context_prefix_cases) auto

lemma no_final_store:
  "pfx \<noteq> ''final_'' \<Longrightarrow> no_final rd \<Longrightarrow>
   no_final (store_price self lib pfx rd kp)"
proof -
  assume pfx: "pfx \<noteq> ''final_''" and nf: "no_final rd"
  obtain ts local_dt price where kp: "kp = ((ts, local_dt), price)"
    by (metis surj_pair)
  show ?thesis
    using pfx nf by (auto simp: kp no_final_def split: option.splits if_splits)
qed

lemma no_final_merge_loop:
  "pfx \<noteq> ''final_'' \<Longrightarrow> no_final rd \<Longrightarrow>
   merge_loop self lib key_list pfx prices i rd = Inr rd' \<Longrightarrow> no_final rd'"
proof (induction prices arbitrary: i rd)
  case Nil
  then show ?case by simp
next
  case (Cons price rest)
  from Cons.prems(3) obtain k where
    step: "merge_loop self lib key_list pfx rest (i + 1) (store_price self lib pfx rd (k, price)) = Inr rd'"
    by (auto simp: merge_loop_step simp del: merge_loop.simps split: sum.splits)
  show ?case
    using Cons.IH [OF Cons.prems(1) no_final_store [OF Cons.prems(1) Cons.prems(2)] step] .
qed

lemma no_final_merge_row:
  "pfx \<noteq> ''final_'' \<Longrightarrow> no_final rd \<Longrightarrow>
   merge_row self lib pfx rd row = Inr rd' \<Longrightarrow> no_final rd'"
  by (auto simp: merge_row_def merge_prices_def split: sum.splits if_splits
      dest: no_final_merge_loop)

lemma no_final_merge_rows:
  "pfx \<noteq> ''final_'' \<Longrightarrow> no_final rd \<Longrightarrow>
   merge_rows self lib pfx rows rd = Inr rd' \<Longrightarrow> no_final rd'"
proof (induction rows arbitrary: rd)
  case Nil
  then show ?case by simp
next
  case (Cons row rest)
  then show ?case
    by (auto split: sum.splits dest: no_final_merge_row)
qed

lemma no_final_merge_resource:
  "no_final rd \<Longrightarrow> merge_resource self lib api rd name = Inr rd' \<Longrightarrow> no_final rd'"
  by (auto simp: merge_resource_def split: sum.splits option.splits detail_doc.splits
      dest: no_final_merge_rows [OF context_prefix_not_final])

lemma no_final_merge_resources:
  "no_final rd \<Longrightarrow> merge_resources self lib api names rd = Inr rd' \<Longrightarrow> no_final rd'"
proof (induction names arbitrary: rd)
  case Nil
  then show ?case by simp
next
  case (Cons name rest)
  then show ?case
    by (auto split: sum.splits dest: no_final_merge_resource)
qed

lemma no_final_merge_reports:
  "no_final rd \<Longrightarrow> merge_reports self lib api report_dict rd = Inr rd' \<Longrightarrow> no_final rd'"
proof (induction report_dict arbitrary: rd)
  case Nil
  then show ?case by simp
next
  case (Cons kr rest)
  then show ?case
    by (cases kr) (auto split: sum.splits dest: no_final_merge_resources)
qed

lemma finalize_rec_final:
  "r ''final_kwh_rate'' = None \<Longrightarrow>
   finalize_rec r ''final_kwh_rate'' = first_present (finalize_rec r) session_fields"
  by (auto simp: finalize_rec_def session_fields_def split: option.splits)

text \<open>
  C2. In the result of \<^verbatim>\<open>_retrieve_market_results\<close>, the \<^verbatim>\<open>final_kwh_rate\<close> of the record
  of every timestamp is the value of the first session field the record has in the order
  ida3, ida2, ida1, da, and the field is absent when the record has none of the four.
\<close>

theorem final_rate_is_highest_priority_session:
  assumes res: "retrieve_market_results self lib api report_dict = Inr res"
    and rec: "areas res t = Some r"
  shows "r ''final_kwh_rate'' = first_present r session_fields \<and>
         ((\<forall>k \<in> set session_fields. r k = None) \<longrightarrow> r ''final_kwh_rate'' = None)"
proof -
  from res obtain rd where rd: "merge_reports self lib api report_dict Map.empty = Inr rd"
    and fin: "res = \<lparr>areas = finalize_records rd\<rparr>"
    by (auto simp: retrieve_market_results_def split: sum.splits)
  have "no_final Map.empty" by (simp add: no_final_def)
  then have nf: "no_final rd" using rd by (rule no_final_merge_reports)
  from rec fin obtain r0 where r0: "rd t = Some r0" and r: "r = finalize_rec r0"
    by (auto simp: finalize_records_def)
  from nf r0 have "r0 ''final_kwh_rate'' = None" by (auto simp: no_final_def)
  then have first: "r ''final_kwh_rate'' = first_present r session_fields"
    unfolding r by (rule finalize_rec_final)
  moreover have "r ''final_kwh_rate'' = None" if "\<forall>k \<in> set session_fields. r k = None"
    using that first by (simp add: session_fields_def)
  ultimately show ?thesis by blast
qed

lemma two_session_result:
  "retrieve_market_results default_client example_libs two_session_api two_session_report
     = Inr \<lparr>areas = [1704067200 \<mapsto> two_session_record]\<rparr>"
  by (simp add: retrieve_market_results_def two_session_report_def two_session_api_def
      merge_resource_def determine_context_prefix_def merge_row_def area_of_def py_index_def
      nested_row_def default_client_def example_libs_def parse_semopx_time_def
      merge_prices_def finalize_records_def finalize_rec_def two_session_record_def fun_eq_iff)

theorem final_rate_witness:
  "two_session_record ''final_kwh_rate'' = first_present two_session_record session_fields \<and>
   two_session_record ''final_kwh_rate'' = two_session_record ''ida2_kwh_rate'' \<and>
   two_session_record ''final_kwh_rate'' = Some (VNum (6 / 5))"
  using final_rate_is_highest_priority_session
    [OF two_session_result, of 1704067200 two_session_record]
  by (simp add: two_session_record_def)

subsection \<open>A resource without content\<close>

lemma merge_resource_no_content:
  "api name = Inr None \<Longrightarrow> merge_resource self lib api rd name = Inr rd"
  by (simp add: merge_resource_def)

lemma merge_resources_without:
  "api name = Inr None \<Longrightarrow>
   merge_resources self lib api (removeAll name names) rd = merge_resources self lib api names rd"
proof (induction names arbitrary: rd)
  case Nil
  then show ?case by simp
next
  case (Cons n rest)
  then show ?case
    by (auto simp: merge_resource_no_content split: sum.splits)
qed

lemma merge_reports_without:
  "api name = Inr None \<Longrightarrow>
   merge_reports self lib api (without_resource name report_dict) rd
     = merge_reports self lib api report_dict rd"
proof (induction report_dict arbitrary: rd)
  case Nil
  then show ?case by (simp add: without_resource_def)
next
  case (Cons kr rest)
  obtain key report where kr: "kr = (key, report)" by (cases kr)
  have "without_resource name (kr # rest)
     = (key, report\<lparr>resources := removeAll name (resources report)\<rparr>) # without_resource name rest"
    by (simp add: without_resource_def kr)
  then show ?case
    using Cons by (simp add: kr merge_resources_without split: sum.splits)
qed

text \<open>
  C8. When the detail endpoint answers a resource with no content (\<^verbatim>\<open>_async_fetch\<close> returns
  \<^verbatim>\<open>None\<close>), the step for that resource returns the record dictionary unchanged and raises
  nothing, the loop goes on with the remaining resources, and the whole merge gives what
  it gives for the report dictionary without that resource.
\<close>

theorem no_content_resource_is_skipped:
  assumes "api resource_name = Inr None"
  shows "merge_resource self lib api rec_dict resource_name = Inr rec_dict \<and>
         merge_resources self lib api (resource_name # rest) rec_dict
           = merge_resources self lib api rest rec_dict \<and>
         retrieve_market_results self lib api report_dict
           = retrieve_market_results self lib api (without_resource resource_name report_dict)"
  using assms
  by (simp add: merge_resource_no_content retrieve_market_results_def merge_reports_without)

lemma gap_free_result:
  "retrieve_market_results default_client example_libs gap_api
       (without_resource ''SEM-DA-0'' gap_report)
     = Inr \<lparr>areas = finalize_records da_records\<rparr>"
  by (simp add: retrieve_market_results_def without_resource_def gap_report_def gap_api_def
      merge_resource_def determine_context_prefix_def merge_row_def area_of_def py_index_def
      nested_api_def nested_row_def default_client_def example_libs_def parse_semopx_time_def
      merge_prices_def da_records_def)

theorem no_content_resource_witness:
  "merge_resource default_client example_libs gap_api da_records ''SEM-DA-0'' = Inr da_records \<and>
   retrieve_market_results default_client example_libs gap_api gap_report
     = Inr \<lparr>areas = finalize_records da_records\<rparr>"
  using no_content_resource_is_skipped
    [of gap_api "''SEM-DA-0''" default_client example_libs da_records "[]" gap_report]
  by (simp add: gap_free_result) (simp add: gap_api_def)

subsection \<open>An unknown timezone\<close>

text \<open>
  C7, the claim as stated fails for a timestamp the date parser rejects:
  \<^verbatim>\<open>_parse_semopx_time\<close> calls \<^verbatim>\<open>parse_dt\<close> (line 124) before it looks at the timezone
  (line 125), so the parser's error is the one raised.
\<close>

theorem garbled_timestamp_raises_parser_error:
  "parse_semopx_time mars_client example_libs ''yesterday'' = Inl ParserError"
  by (simp add: parse_semopx_time_def example_libs_def)

text \<open>
  C7, amended. With a timezone that is not in \<^verbatim>\<open>all_timezones\<close>, parsing a timestamp that
  the date parser accepts raises \<^verbatim>\<open>ValueError("Invalid timezone: ...")\<close>. This exception is
  not of the two classes the decorator retries, and when a run of the body of \<^verbatim>\<open>fetch\<close>
  raises it, \<^verbatim>\<open>fetch\<close> ends after that one run with the exception.
\<close>

theorem unknown_timezone_is_not_retried:
  assumes tz: "timezone self \<notin> set (all_timezones lib)"
  shows "(parse_dt lib datetime_str = Some utc_dt \<longrightarrow>
            parse_semopx_time self lib datetime_str
              = Inl (ValueError (''Invalid timezone: '' @ timezone self))) \<and>
         \<not> retried (ValueError (''Invalid timezone: '' @ timezone self)) \<and>
         (fetch_body self lib net = Raised (ValueError (''Invalid timezone: '' @ timezone self)) \<longrightarrow>
            fetch self lib (net # later)
              = (1, Raised (ValueError (''Invalid timezone: '' @ timezone self))))"
  using tz by (simp add: parse_semopx_time_def)

lemma mars_fetch_body:
  "fetch_body mars_client example_libs ([Inr (Some one_da_page)], nested_api)
     = Raised (ValueError ''Invalid timezone: Mars/Olympus'')"
  by (simp add: fetch_body_def fetch_semopx_json_def one_da_page_def Let_def
      retrieve_market_results_def merge_resource_def determine_context_prefix_def
      merge_row_def area_of_def py_index_def nested_api_def nested_row_def
      mars_client_def example_libs_def parse_semopx_time_def)

theorem unknown_timezone_witness:
  "parse_semopx_time mars_client example_libs ''2024-01-01T00:00:00Z''
     = Inl (ValueError ''Invalid timezone: Mars/Olympus'') \<and>
   fetch mars_client example_libs
       [([Inr (Some one_da_page)], nested_api), ([Inr (Some one_da_page)], nested_api)]
     = (1, Raised (ValueError ''Invalid timezone: Mars/Olympus''))"
  using unknown_timezone_is_not_retried
    [of mars_client example_libs "''2024-01-01T00:00:00Z''" 1704067200
        "([Inr (Some one_da_page)], nested_api)" "[([Inr (Some one_da_page)], nested_api)]"]
    mars_fetch_body
  by (simp add: mars_client_def example_libs_def)

subsection \<open>Where the walker stops\<close>

lemma map_fst_append_resource: "map fst (append_resource k r rd) = map fst rd"
  by (induction rd) auto

lemma keys_append_resource: "fst ` set (append_resource k r rd) = fst ` set rd"
  using map_fst_append_resource [of k r rd] by (metis set_map)

lemma add_item_keys:
  assumes "walk_inv st"
  shows "\<exists>st'. add_item item st = Inr st' \<and> walk_inv st' \<and>
           set (map fst (fst st')) = insert (take 10 (Date item)) (set (map fst (fst st)))"
proof -
  obtain rd cur where st: "st = (rd, cur)" by (cases st)
  show ?thesis
  proof (cases "map_of rd (take 10 (Date item)) = None")
    case True
    then have "take 10 (Date item) \<notin> set (map fst rd)"
      by (simp add: map_of_eq_None_iff)
    with assms True show ?thesis
      by (simp add: st walk_inv_def Let_def map_fst_append_resource keys_append_resource)
  next
    case False
    then have "take 10 (Date item) \<in> set (map fst rd)"
      by (simp add: map_of_eq_None_iff)
    moreover from this assms obtain k where "cur = Some k"
      by (auto simp: st walk_inv_def)
    ultimately show ?thesis
      using assms False
      by (auto simp: st walk_inv_def Let_def map_fst_append_resource keys_append_resource)
  qed
qed

lemma add_items_keys:
  "walk_inv st \<Longrightarrow>
   \<exists>st'. add_items its st = Inr st' \<and> walk_inv st' \<and>
     set (map fst (fst st')) = set (map fst (fst st)) \<union> (\<lambda>item. take 10 (Date item)) ` set its"
proof (induction its arbitrary: st)
  case Nil
  then show ?case by simp
next
  case (Cons item rest)
  from add_item_keys [OF Cons.prems, of item] obtain st1 where
    s1: "add_item item st = Inr st1" "walk_inv st1"
      "set (map fst (fst st1)) = insert (take 10 (Date item)) (set (map fst (fst st)))"
    by blast
  from Cons.IH [OF s1(2)] obtain st2 where
    s2: "add_items rest st1 = Inr st2" "walk_inv st2"
      "set (map fst (fst st2)) = set (map fst (fst st1)) \<union> (\<lambda>item. take 10 (Date item)) ` set rest"
    by blast
  show ?case
    using s1 s2 by auto
qed

lemma set_date_keys_snoc:
  "set (date_keys (seen @ [pg])) = set (date_keys seen) \<union> (\<lambda>item. take 10 (Date item)) ` set (fst pg)"
  by (auto simp: date_keys_def)

lemma walk_loop_first_stop:
  assumes "walk_inv st" and "set (map fst (fst st)) = set (date_keys seen)"
    and "page = int (length seen)"
  shows "(case first_stop days seen pages of
            Some n \<Rightarrow> length (fst (walk_loop days (map answer pages) page st)) = n \<and>
                     returned (snd (walk_loop days (map answer pages) page st))
          | None \<Rightarrow> length (fst (walk_loop days (map answer pages) page st)) = Suc (length pages) \<and>
                     snd (walk_loop days (map answer pages) page st) = Awaiting)"
  using assms
proof (induction pages arbitrary: st seen page)
  case Nil
  then show ?case by simp
next
  case (Cons pg rest)
  from add_items_keys [OF Cons.prems(1), of "fst pg"] obtain st' where
    s: "add_items (fst pg) st = Inr st'" "walk_inv st'"
      "set (map fst (fst st')) = set (map fst (fst st)) \<union> (\<lambda>item. take 10 (Date item)) ` set (fst pg)"
    by blast
  have keys: "set (map fst (fst st')) = set (date_keys (seen @ [pg]))"
    using s(3) Cons.prems(2) by (simp add: set_date_keys_snoc)
  have "length (fst st') = card (set (map fst (fst st')))"
    using s(2) distinct_card [of "map fst (fst st')"] by (simp add: walk_inv_def)
  also have "\<dots> = length (date_keys (seen @ [pg]))"
    unfolding keys by (simp add: date_keys_def length_remdups_card_conv)
  finally have len: "length (fst st') = length (date_keys (seen @ [pg]))" .
  have test: "(snd pg \<le> page + 1 \<or> days < int (length (fst st'))) = stop_at days (seen @ [pg])"
    using Cons.prems(3) by (auto simp: stop_at_def len)
  show ?case
  proof (cases "stop_at days (seen @ [pg])")
    case True
    with test s(1) show ?thesis
      by (simp add: answer_def Let_def)
  next
    case False
    have next_page: "page + 1 = int (length (seen @ [pg]))"
      using Cons.prems(3) by simp
    note IH = Cons.IH [OF s(2) keys next_page]
    from False test s(1) have
      "walk_loop days (map answer (pg # rest)) page st
         = ((page + 1) # fst (walk_loop days (map answer rest) (page + 1) st'),
            snd (walk_loop days (map answer rest) (page + 1) st'))"
      by (simp add: answer_def Let_def split: prod.splits)
    with IH False show ?thesis
      by (auto split: option.splits)
  qed
qed

lemma first_stop_Some_iff:
  "first_stop days seen pages = Some k \<longleftrightarrow>
     1 \<le> k \<and> k \<le> length pages \<and> stop_at days (seen @ take k pages) \<and>
     (\<forall>m. 1 \<le> m \<and> m < k \<longrightarrow> \<not> stop_at days (seen @ take m pages))"
proof (induction pages arbitrary: seen k)
  case Nil
  then show ?case by auto
next
  case (Cons pg rest)
  show ?case
  proof (cases "stop_at days (seen @ [pg])")
    case True
    show ?thesis
    proof
      assume "first_stop days seen (pg # rest) = Some k"
      with True have "k = 1" by simp
      with True show "1 \<le> k \<and> k \<le> length (pg # rest) \<and> stop_at days (seen @ take k (pg # rest)) \<and>
        (\<forall>m. 1 \<le> m \<and> m < k \<longrightarrow> \<not> stop_at days (seen @ take m (pg # rest)))"
        by simp
    next
      assume r: "1 \<le> k \<and> k \<le> length (pg # rest) \<and> stop_at days (seen @ take k (pg # rest)) \<and>
        (\<forall>m. 1 \<le> m \<and> m < k \<longrightarrow> \<not> stop_at days (seen @ take m (pg # rest)))"
      have "k = 1"
      proof (rule ccontr)
        assume "k \<noteq> 1"
        with r have "1 \<le> (1::nat) \<and> 1 < k" by auto
        with r have "\<not> stop_at days (seen @ take 1 (pg # rest))" by blast
        with True show False by simp
      qed
      with True show "first_stop days seen (pg # rest) = Some k" by simp
    qed
  next
    case False
    show ?thesis
    proof
      assume "first_stop days seen (pg # rest) = Some k"
      with False obtain k' where k': "first_stop days (seen @ [pg]) rest = Some k'" "k = Suc k'"
        by auto
      from k'(1) Cons.IH [of "seen @ [pg]" k'] have
        ih: "1 \<le> k'" "k' \<le> length rest" "stop_at days (seen @ [pg] @ take k' rest)"
          "\<And>m. 1 \<le> m \<Longrightarrow> m < k' \<Longrightarrow> \<not> stop_at days (seen @ [pg] @ take m rest)"
        by auto
      have "\<not> stop_at days (seen @ take m (pg # rest))" if "1 \<le> m" "m < k" for m
      proof (cases m)
        case 0
        with that show ?thesis by simp
      next
        case (Suc m')
        show ?thesis
        proof (cases "m' = 0")
          case True
          with Suc False show ?thesis by simp
        next
          case m': False
          with that Suc k'(2) have "1 \<le> m'" "m' < k'" by auto
          from ih(4) [OF this] Suc show ?thesis by simp
        qed
      qed
      with ih k'(2) show "1 \<le> k \<and> k \<le> length (pg # rest) \<and>
        stop_at days (seen @ take k (pg # rest)) \<and>
        (\<forall>m. 1 \<le> m \<and> m < k \<longrightarrow> \<not> stop_at days (seen @ take m (pg # rest)))"
        by simp
    next
      assume r: "1 \<le> k \<and> k \<le> length (pg # rest) \<and> stop_at days (seen @ take k (pg # rest)) \<and>
        (\<forall>m. 1 \<le> m \<and> m < k \<longrightarrow> \<not> stop_at days (seen @ take m (pg # rest)))"
      then obtain k' where k: "k = Suc k'" by (cases k) auto
      have "k' \<noteq> 0"
        using r False k by auto
      then have k1: "1 \<le> k'" by simp
      have a: "k' \<le> length rest" using r k by simp
      have b: "stop_at days ((seen @ [pg]) @ take k' rest)" using r k by simp
      have c: "\<not> stop_at days ((seen @ [pg]) @ take m rest)" if "1 \<le> m" "m < k'" for m
      proof -
        from that k have "1 \<le> Suc m \<and> Suc m < k" by simp
        with r have "\<not> stop_at days (seen @ take (Suc m) (pg # rest))" by blast
        then show ?thesis by simp
      qed
      from k1 a b c have "first_stop days (seen @ [pg]) rest = Some k'"
        using Cons.IH [of "seen @ [pg]" k'] by auto
      with False k show "first_stop days seen (pg # rest) = Some k" by simp
    qed
  qed
qed

lemma upt_shift: "[1..<Suc (Suc n)] = 1 # map Suc [1..<Suc n]"
proof -
  have "[1..<Suc (Suc n)] = 1 # [Suc 1..<Suc (Suc n)]"
    by (rule upt_conv_Cons) simp
  then show ?thesis by (simp only: map_Suc_upt)
qed

lemma requests_shift:
  "map (\<lambda>j. page + int j) [1..<Suc (Suc n)]
     = (page + 1) # map (\<lambda>j. (page + 1) + int j) [1..<Suc n]"
  by (simp only: upt_shift) (simp add: comp_def)


lemma walk_loop_requests:
  "walk_loop days resps page st = (reqs, out) \<Longrightarrow>
   reqs = map (\<lambda>j. page + int j) [1..<Suc (length reqs)]"
proof (induction resps arbitrary: page st reqs out)
  case Nil
  then show ?case by auto
next
  case (Cons resp rest)
  consider (stop) "reqs = [page + 1]"
    | (cont) st' reqs' where "walk_loop days rest (page + 1) st' = (reqs', out)"
        "reqs = (page + 1) # reqs'"
    using Cons.prems
    by (auto simp: Let_def split: sum.splits option.splits prod.splits if_splits)
  then show ?case
  proof cases
    case stop
    then show ?thesis by simp
  next
    case cont
    have "reqs' = map (\<lambda>j. (page + 1) + int j) [1..<Suc (length reqs')]"
      by (rule Cons.IH [OF cont(1)])
    then have "(page + 1) # reqs'
        = (page + 1) # map (\<lambda>j. (page + 1) + int j) [1..<Suc (length reqs')]"
      by (rule arg_cong)
    also have "\<dots> = map (\<lambda>j. page + int j) [1..<Suc (Suc (length reqs'))]"
      by (rule requests_shift [symmetric])
    finally have f: "(page + 1) # reqs' = map (\<lambda>j. page + int j) [1..<Suc (Suc (length reqs'))]" .
    have eq: "length ((page + 1) # reqs') = Suc (length reqs')" by simp
    show ?thesis
      unfolding cont(2) eq by (rule f)
  qed
qed


text \<open>
  C4. For well-formed pages and every \<open>min_days\<close>: the walker returns after exactly the
  requests for the pages \<open>1, \<dots>, k\<close> if and only if the stop condition holds after page \<open>k\<close>
  and after none of the pages before it.
\<close>

theorem walker_stops_at_first_stop_page:
  assumes "1 \<le> k" and "k \<le> length pages"
  shows "(fst (fetch_semopx_json min_days (map answer pages)) = map int [1..<Suc k] \<and>
          returned (snd (fetch_semopx_json min_days (map answer pages))))
         \<longleftrightarrow>
         (stop_at min_days (take k pages) \<and>
          (\<forall>m. 1 \<le> m \<and> m < k \<longrightarrow> \<not> stop_at min_days (take m pages)))"
proof -
  let ?W = "walk_loop min_days (map answer pages) 0 ([], None)"
  have first: "(case first_stop min_days [] pages of
            Some n \<Rightarrow> length (fst ?W) = n \<and> returned (snd ?W)
          | None \<Rightarrow> length (fst ?W) = Suc (length pages) \<and> snd ?W = Awaiting)"
    by (rule walk_loop_first_stop) (simp_all add: walk_inv_def date_keys_def)
  have reqs: "fst ?W = map int [1..<Suc (length (fst ?W))]"
    using walk_loop_requests [of min_days "map answer pages" 0 "([], None)" "fst ?W" "snd ?W"]
    by simp
  have "fst ?W = map int [1..<Suc k] \<longleftrightarrow> length (fst ?W) = k"
  proof
    assume "fst ?W = map int [1..<Suc k]"
    then have "length (fst ?W) = length (map int [1..<Suc k])" by (rule arg_cong)
    then show "length (fst ?W) = k" by simp
  next
    assume "length (fst ?W) = k"
    with reqs show "fst ?W = map int [1..<Suc k]" by metis
  qed
  then have "(fst ?W = map int [1..<Suc k] \<and> returned (snd ?W))
      \<longleftrightarrow> first_stop min_days [] pages = Some k"
    using first assms by (auto split: option.splits)
  also have "\<dots> \<longleftrightarrow> (stop_at min_days (take k pages) \<and>
          (\<forall>m. 1 \<le> m \<and> m < k \<longrightarrow> \<not> stop_at min_days (take m pages)))"
    using assms first_stop_Some_iff [of min_days "[]" pages k] by simp
  finally show ?thesis by (simp only: fetch_semopx_json_def)
qed

theorem walker_stop_witness:
  "fst (fetch_semopx_json 5 (map answer two_pages)) = [1, 2] \<and>
   returned (snd (fetch_semopx_json 5 (map answer two_pages)))"
proof -
  have len: "1 \<le> (2::nat)" "2 \<le> length two_pages" by (simp_all add: two_pages_def)
  have a: "stop_at 5 (take 2 two_pages)"
    by (simp add: stop_at_def two_pages_def)
  have b: "\<not> stop_at 5 (take m two_pages)" if "1 \<le> m \<and> m < 2" for m
  proof -
    from that have "m = 1" by arith
    then show ?thesis by (simp add: stop_at_def two_pages_def date_keys_def)
  qed
  have c: "map int [1..<Suc 2] = [1, 2]" by (simp add: upt_rec)
  from walker_stops_at_first_stop_page [OF len, of 5] a b
  show ?thesis unfolding c by blast
qed

subsection \<open>Requests and the reported number of pages\<close>

lemma walk_loop_within_total:
  "walk_loop days resps page st = (reqs, out) \<Longrightarrow>
   reqs \<noteq> [] \<and> hd reqs = page + 1 \<and>
   (\<forall>i. Suc i < length reqs \<longrightarrow>
      i < length resps \<and>
      (\<exists>doc total. resps ! i = Inr (Some doc) \<and> totalPages doc = Some total \<and>
         reqs ! Suc i \<le> total))"
proof (induction resps arbitrary: page st reqs out)
  case Nil
  then show ?case by auto
next
  case (Cons resp rest)
  consider (stop) "reqs = [page + 1]"
    | (cont) doc total st' reqs' where "resp = Inr (Some doc)" "totalPages doc = Some total"
        "\<not> total \<le> page + 1"
        "walk_loop days rest (page + 1) st' = (reqs', out)" "reqs = (page + 1) # reqs'"
    using Cons.prems
    by (auto simp: Let_def split: sum.splits option.splits prod.splits if_splits)
  then show ?case
  proof cases
    case stop
    then show ?thesis by simp
  next
    case cont
    note ih = Cons.IH [OF cont(4)]
    have "i < length (resp # rest) \<and>
      (\<exists>doc total. (resp # rest) ! i = Inr (Some doc) \<and> totalPages doc = Some total \<and>
         reqs ! Suc i \<le> total)" if "Suc i < length reqs" for i
    proof (cases i)
      case 0
      from ih have "reqs' \<noteq> []" by blast
      then have "hd reqs' = reqs' ! 0" by (rule hd_conv_nth)
      then have "reqs ! Suc 0 = hd reqs'" by (simp add: cont(5))
      with ih cont(3) have "reqs ! Suc 0 \<le> total" by simp
      with 0 cont(1,2) show ?thesis by simp
    next
      case (Suc i')
      with that have "Suc i' < length reqs'" by (simp add: cont(5))
      with ih have "i' < length rest \<and>
        (\<exists>doc total. rest ! i' = Inr (Some doc) \<and> totalPages doc = Some total \<and>
           reqs' ! Suc i' \<le> total)" by blast
      then show ?thesis by (simp add: Suc cont(5))
    qed
    then show ?thesis by (simp add: cont(5))
  qed
qed

text \<open>
  C9, the claim as stated fails: the request for page 1 is issued before any answer, and
  the answer may report \<open>totalPages = 0\<close>. The walker then stops, having requested page
  \<open>1 > 0\<close>.
\<close>

theorem page_one_is_requested_with_total_zero:
  "fetch_semopx_json 5 empty_index = ([1], Returned [])"
  by (simp add: fetch_semopx_json_def empty_index_def)

text \<open>
  C9, amended. For every sequence of answers: the first request is for page 1, and every
  later request is for a page number not greater than the \<open>totalPages\<close> reported by the
  answer to the request before it.
\<close>

theorem later_requests_within_reported_total:
  assumes "fetch_semopx_json min_days resps = (reqs, out)"
  shows "reqs \<noteq> [] \<and> hd reqs = 1 \<and>
         (\<forall>i. Suc i < length reqs \<longrightarrow>
            i < length resps \<and>
            (\<exists>doc total. resps ! i = Inr (Some doc) \<and> totalPages doc = Some total \<and>
               reqs ! Suc i \<le> total))"
  using walk_loop_within_total [of min_days resps 0 "([], None)" reqs out] assms
  by (simp add: fetch_semopx_json_def)

lemma two_pages_walk:
  "fst (fetch_semopx_json 5 (map answer two_pages)) = [1, 2]"
  by (simp add: fetch_semopx_json_def two_pages_def answer_def Let_def)

theorem later_requests_witness:
  "hd (fst (fetch_semopx_json 5 (map answer two_pages))) = 1 \<and>
   (\<exists>doc total. map answer two_pages ! 0 = Inr (Some doc) \<and> totalPages doc = Some total \<and>
      fst (fetch_semopx_json 5 (map answer two_pages)) ! Suc 0 \<le> total)"
proof -
  let ?F = "fetch_semopx_json 5 (map answer two_pages)"
  have "?F = (fst ?F, snd ?F)" by simp
  from later_requests_within_reported_total [OF this]
  have h: "hd (fst ?F) = 1"
    and q: "\<And>i. Suc i < length (fst ?F) \<Longrightarrow>
      \<exists>doc total. map answer two_pages ! i = Inr (Some doc) \<and> totalPages doc = Some total \<and>
        fst ?F ! Suc i \<le> total"
    by blast+
  have "Suc 0 < length (fst ?F)" by (simp add: two_pages_walk)
  from q [OF this] h show ?thesis by blast
qed

subsection \<open>The price conversion\<close>











end
